theory Spec2Isabelle
  imports Complex_Main "HOL-Library.AList"
begin

section \<open>JavaScript values and property access\<close>

text \<open>
  The module \<^verbatim>\<open>src/index.js\<close> keeps two dictionaries as ordinary JavaScript objects:
  \<^verbatim>\<open>consent\<close> (the result of \<^verbatim>\<open>JSON.parse\<close>, or \<^verbatim>\<open>{}\<close>) and \<^verbatim>\<open>listeners\<close> (\<^verbatim>\<open>{}\<close>).
  A value is what \<^verbatim>\<open>JSON.parse\<close> can produce, \<^verbatim>\<open>undefined\<close>, or a built-in reached
  through the prototype chain. A JSON number is kept as a rational: the code only ever
  compares it with \<^verbatim>\<open>0\<close> and \<^verbatim>\<open>1\<close>. The own properties of an object are an association
  list in insertion order.
\<close>

datatype jsval =
    JUndefined
  | JNull
  | JBool bool
  | JNum rat
  | JStr string
  | JArray "jsval list"
  | JObject "(string \<times> jsval) list"
  | JBuiltin string

text \<open>The \<^verbatim>\<open>typeof\<close> operator; \<^verbatim>\<open>typeof null\<close> is \<^verbatim>\<open>"object"\<close>, and so is an array's.\<close>

fun typeof :: "jsval \<Rightarrow> string" where
  "typeof JUndefined = ''undefined''"
| "typeof JNull = ''object''"
| "typeof (JBool b) = ''boolean''"
| "typeof (JNum n) = ''number''"
| "typeof (JStr s) = ''string''"
| "typeof (JArray xs) = ''object''"
| "typeof (JObject ps) = ''object''"
| "typeof (JBuiltin k) = (if k = ''__proto__'' then ''object'' else ''function'')"

text \<open>
  The property names of \<^verbatim>\<open>Object.prototype\<close>, which every object literal and every object
  built by \<^verbatim>\<open>JSON.parse\<close> inherits. All of them are functions, except \<^verbatim>\<open>__proto__\<close>, an
  accessor whose getter returns \<^verbatim>\<open>Object.prototype\<close> itself and whose setter ignores a
  value that is neither an object nor \<^verbatim>\<open>null\<close>.
\<close>

definition object_prototype :: "string list" where
  "object_prototype =
     [''constructor'', ''__defineGetter__'', ''__defineSetter__'', ''hasOwnProperty'',
      ''__lookupGetter__'', ''__lookupSetter__'', ''isPrototypeOf'',
      ''propertyIsEnumerable'', ''toString'', ''valueOf'', ''__proto__'',
      ''toLocaleString'']"

text \<open>
  The exceptions of a run: \<^verbatim>\<open>TypeError\<close> and \<^verbatim>\<open>RangeError\<close> come from the engine,
  \<^verbatim>\<open>QuotaExceededError\<close> is what \<^verbatim>\<open>localStorage.setItem\<close> throws when the host refuses the
  write, and \<^verbatim>\<open>ClientError\<close> is an exception that a callback throws itself.
\<close>

datatype error = TypeError | RangeError | QuotaExceededError | ClientError

text \<open>
  \<^verbatim>\<open>o[k]\<close>, \<^verbatim>\<open>o[k] = v\<close> (for a primitive \<^verbatim>\<open>v\<close>; the module only stores \<^verbatim>\<open>0\<close> and \<^verbatim>\<open>1\<close>)
  and \<^verbatim>\<open>delete o[k]\<close>, in strict mode (the file is an ES module). On \<^verbatim>\<open>null\<close> and
  \<^verbatim>\<open>undefined\<close> property access throws a \<^verbatim>\<open>TypeError\<close>. Only the receivers the module
  can hold and this development reasons about have equations: array receivers (an
  exotic object with \<^verbatim>\<open>length\<close> and index properties) are left unspecified.
\<close>

fun js_get :: "jsval \<Rightarrow> string \<Rightarrow> error + jsval" where
  "js_get (JObject ps) k =
     Inr (case map_of ps k of
            Some v \<Rightarrow> v
          | None \<Rightarrow> if k \<in> set object_prototype then JBuiltin k else JUndefined)"
| "js_get JNull k = Inl TypeError"
| "js_get JUndefined k = Inl TypeError"

fun js_set :: "jsval \<Rightarrow> string \<Rightarrow> jsval \<Rightarrow> error + jsval" where
  "js_set (JObject ps) k v =
     Inr (if map_of ps k = None \<and> k = ''__proto__'' then JObject ps
          else JObject (AList.update k v ps))"
| "js_set JNull k v = Inl TypeError"
| "js_set JUndefined k v = Inl TypeError"

fun js_delete :: "jsval \<Rightarrow> string \<Rightarrow> error + jsval" where
  "js_delete (JObject ps) k = Inr (JObject (AList.delete k ps))"
| "js_delete JNull k = Inl TypeError"
| "js_delete JUndefined k = Inl TypeError"

section \<open>Callbacks, effects and the module state\<close>

text \<open>
  A callback passed to \<^verbatim>\<open>waitForConsent\<close> is client code: it is identified by a number and
  its body is a sequence of calls of the module's five exported functions and of
  \<^verbatim>\<open>throw\<close> statements (an empty body is a callback that does not touch the module). An
  omitted cookie type is \<open>None\<close>.
\<close>

datatype call =
    CallGrantConsent "string option"
  | CallRevokeConsent "string option"
  | CallHasConsent "string option"
  | CallOfferedConsent "string option"
  | CallWaitForConsent callback "string option"
  | Raise
and callback = Callback (ident: nat) "call list"

text \<open>
  What can be observed of a run: a callback starts, a callback reads a result, a callback
  is about to call \<^verbatim>\<open>revokeConsent\<close>, and (for the statements about one call of
  \<^verbatim>\<open>grantConsent\<close>) that call hands a pending callback to the host.
\<close>

datatype event =
    Invoked nat
  | Fired nat
  | Revoking string
  | SawHasConsent string bool
  | SawOfferedConsent string bool

text \<open>
  The mutating calls on \<^verbatim>\<open>localStorage\<close>; \<open>SetItem k v\<close> is the call
  \<^verbatim>\<open>localStorage.setItem(k, JSON.stringify(v))\<close>, whether or not the host accepts it.
\<close>

datatype storage_call = RemoveItem string | SetItem string jsval

record store =
  localStorageAvailable :: bool
  consent :: jsval
  listeners :: "(string \<times> callback list) list"
  storageCalls :: "storage_call list"
  trace :: "event list"

text \<open>
  A call returns a value or throws; either way the module state it leaves behind
  stays (JavaScript does not roll back on an exception).
\<close>

datatype 'a result = Return 'a store | Throw error store

fun store_of :: "'a result \<Rightarrow> store" where
  "store_of (Return a s) = s"
| "store_of (Throw e s) = s"

fun returns :: "'a result \<Rightarrow> bool" where
  "returns (Return a s) = True"
| "returns (Throw e s) = False"

definition nameString :: string where
  "nameString = ''cookie-consent''"

definition defaultCookieType :: string where
  "defaultCookieType = ''default''"

text \<open>A parameter declared \<^verbatim>\<open>cookieType = defaultCookieType\<close>.\<close>

fun orDefault :: "string option \<Rightarrow> string" where
  "orDefault None = defaultCookieType"
| "orDefault (Some cookieType) = cookieType"

section \<open>Module initialisation\<close>

text \<open>
  The host is a parameter: \<open>probe\<close> says whether \<^verbatim>\<open>localStorage.getItem("")\<close> returned,
  \<open>storedString\<close> is \<^verbatim>\<open>localStorage.getItem(nameString)\<close> (\<open>None\<close> for \<^verbatim>\<open>null\<close>), and
  \<open>JSON_parse\<close> is the built-in parser, \<open>None\<close> where it throws. A string is truthy
  when it is not empty. The diagnostic written to the console is not modelled.
\<close>

definition reset :: "storage_call list \<Rightarrow> jsval \<times> storage_call list" where
  "reset calls = (JObject [], calls @ [RemoveItem nameString])"

definition consent_init ::
  "(string \<Rightarrow> jsval option) \<Rightarrow> bool \<Rightarrow> string option \<Rightarrow> jsval \<times> storage_call list" where
  "consent_init JSON_parse available storedString =
     (if available then
        (case storedString of
           None \<Rightarrow> reset []
         | Some str \<Rightarrow>
             if str \<noteq> [] then
               (case JSON_parse str of
                  Some parsed \<Rightarrow> if typeof parsed = ''object'' then (parsed, []) else reset []
                | None \<Rightarrow> reset [])
             else reset [])
      else (JObject [], []))"

definition init :: "(string \<Rightarrow> jsval option) \<Rightarrow> bool \<Rightarrow> string option \<Rightarrow> store" where
  "init JSON_parse probe storedString =
     (let (c, calls) = consent_init JSON_parse probe storedString
      in \<lparr> localStorageAvailable = probe, consent = c, listeners = [],
           storageCalls = calls, trace = [] \<rparr>)"

section \<open>The exported functions\<close>

text \<open>
  \<^verbatim>\<open>localStorage.setItem\<close> may throw although the probe at start-up succeeded (the quota is
  exceeded, or the storage has been disabled since), and \<^verbatim>\<open>alterConsent\<close> does not catch the
  exception. The host is a parameter of every function that writes: \<open>full calls\<close> says
  whether the call of \<^verbatim>\<open>setItem\<close> that ends the history \<open>calls\<close> of calls made on
  \<^verbatim>\<open>localStorage\<close> throws. The assignment to \<^verbatim>\<open>consent\<close> comes first and stays when the write
  throws.
\<close>

definition alterConsent ::
  "(storage_call list \<Rightarrow> bool) \<Rightarrow> jsval \<Rightarrow> string option \<Rightarrow> store \<Rightarrow> unit result" where
  "alterConsent full val arg s =
     (let cookieType = orDefault arg in
      case js_set (consent s) cookieType val of
        Inl e \<Rightarrow> Throw e s
      | Inr c \<Rightarrow>
          if localStorageAvailable s then
            (let calls = storageCalls s @ [SetItem nameString c] in
             if full calls then Throw QuotaExceededError (s\<lparr> consent := c, storageCalls := calls \<rparr>)
             else Return () (s\<lparr> consent := c, storageCalls := calls \<rparr>))
          else Return () (s\<lparr> consent := c \<rparr>))"

text \<open>
  What \<^verbatim>\<open>listeners[cookieType]\<close> evaluates to: an own array of callbacks (truthy, with
  \<^verbatim>\<open>forEach\<close> and \<^verbatim>\<open>push\<close>), a built-in inherited from \<^verbatim>\<open>Object.prototype\<close> (truthy, with
  neither method, so that calling one throws a \<^verbatim>\<open>TypeError\<close>), or \<^verbatim>\<open>undefined\<close>.
\<close>

datatype slot = Pending "callback list" | Inherited string | Vacant

definition listeners_get :: "(string \<times> callback list) list \<Rightarrow> string \<Rightarrow> slot" where
  "listeners_get ls k =
     (case map_of ls k of
        Some fns \<Rightarrow> Pending fns
      | None \<Rightarrow> if k \<in> set object_prototype then Inherited k else Vacant)"

text \<open>
  \<^verbatim>\<open>array.forEach(fn => fn())\<close>: the length is read once, so the elements visited are
  those present when the loop starts; \<open>run\<close> is how the host runs a callback.
\<close>

fun forEach :: "(callback \<Rightarrow> store \<Rightarrow> unit result) \<Rightarrow> callback list \<Rightarrow> store \<Rightarrow> unit result" where
  "forEach run [] s = Return () s"
| "forEach run (fn # fns) s =
     (case run fn s of
        Throw e s' \<Rightarrow> Throw e s'
      | Return u s' \<Rightarrow> forEach run fns s')"

definition grantConsent ::
  "(storage_call list \<Rightarrow> bool) \<Rightarrow> (callback \<Rightarrow> store \<Rightarrow> unit result) \<Rightarrow>
     string option \<Rightarrow> store \<Rightarrow> unit result" where
  "grantConsent full run arg s =
     (let cookieType = orDefault arg in
      case alterConsent full (JNum 1) (Some cookieType) s of
        Throw e s' \<Rightarrow> Throw e s'
      | Return u s1 \<Rightarrow>
          (case listeners_get (listeners s1) cookieType of
             Vacant \<Rightarrow> Return () s1
           | Inherited k \<Rightarrow> Throw TypeError s1
           | Pending fns \<Rightarrow>
               (case forEach run fns s1 of
                  Throw e s' \<Rightarrow> Throw e s'
                | Return u' s2 \<Rightarrow>
                    Return () (s2\<lparr> listeners := AList.delete cookieType (listeners s2) \<rparr>))))"

definition revokeConsent ::
  "(storage_call list \<Rightarrow> bool) \<Rightarrow> string option \<Rightarrow> store \<Rightarrow> unit result" where
  "revokeConsent full arg s = alterConsent full (JNum 0) arg s"

definition hasConsent :: "string option \<Rightarrow> store \<Rightarrow> bool result" where
  "hasConsent arg s =
     (let cookieType = orDefault arg in
      case js_get (consent s) cookieType of
        Inl e \<Rightarrow> Throw e s
      | Inr v \<Rightarrow>
          if v = JNum 1 then Return True s
          else if v = JNum 0 then Return False s
          else (case js_delete (consent s) cookieType of
                  Inl e \<Rightarrow> Throw e s
                | Inr c \<Rightarrow> Return False (s\<lparr> consent := c \<rparr>)))"

definition offeredConsent :: "string option \<Rightarrow> store \<Rightarrow> bool result" where
  "offeredConsent arg s =
     (let cookieType = orDefault arg in
      case js_get (consent s) cookieType of
        Inl e \<Rightarrow> Throw e s
      | Inr v \<Rightarrow>
          if v = JNum 0 \<or> v = JNum 1 then Return True s
          else (case js_delete (consent s) cookieType of
                  Inl e \<Rightarrow> Throw e s
                | Inr c \<Rightarrow> Return False (s\<lparr> consent := c \<rparr>)))"

definition waitForConsent ::
  "(callback \<Rightarrow> store \<Rightarrow> unit result) \<Rightarrow> callback \<Rightarrow> string option \<Rightarrow> store \<Rightarrow> unit result" where
  "waitForConsent run callback arg s =
     (let cookieType = orDefault arg in
      case hasConsent (Some cookieType) s of
        Throw e s' \<Rightarrow> Throw e s'
      | Return granted s1 \<Rightarrow>
          if granted then run callback s1
          else (case listeners_get (listeners s1) cookieType of
                  Pending fns \<Rightarrow>
                    Return ()
                      (s1\<lparr> listeners := AList.update cookieType (fns @ [callback]) (listeners s1) \<rparr>)
                | Inherited k \<Rightarrow> Throw TypeError s1
                | Vacant \<Rightarrow>
                    Return ()
                      (s1\<lparr> listeners := AList.update cookieType [callback] (listeners s1) \<rparr>)))"

section \<open>Running callbacks\<close>

text \<open>
  A callback's body runs call by call and stops at the first exception; \<open>Raise\<close> is a
  \<^verbatim>\<open>throw\<close> statement of the callback's own. \<open>invoke full n\<close> runs a callback with room for
  \<open>n\<close> nested callback frames on the call stack; with no room left the host throws a
  \<^verbatim>\<open>RangeError\<close>.
\<close>

fun run_call ::
  "(storage_call list \<Rightarrow> bool) \<Rightarrow> (callback \<Rightarrow> store \<Rightarrow> unit result) \<Rightarrow>
     call \<Rightarrow> store \<Rightarrow> unit result" where
  "run_call full run (CallGrantConsent arg) s = grantConsent full run arg s"
| "run_call full run (CallRevokeConsent arg) s =
     revokeConsent full arg (s\<lparr> trace := trace s @ [Revoking (orDefault arg)] \<rparr>)"
| "run_call full run (CallHasConsent arg) s =
     (case hasConsent arg s of
        Throw e s' \<Rightarrow> Throw e s'
      | Return b s' \<Rightarrow> Return () (s'\<lparr> trace := trace s' @ [SawHasConsent (orDefault arg) b] \<rparr>))"
| "run_call full run (CallOfferedConsent arg) s =
     (case offeredConsent arg s of
        Throw e s' \<Rightarrow> Throw e s'
      | Return b s' \<Rightarrow> Return () (s'\<lparr> trace := trace s' @ [SawOfferedConsent (orDefault arg) b] \<rparr>))"
| "run_call full run (CallWaitForConsent fn arg) s = waitForConsent run fn arg s"
| "run_call full run Raise s = Throw ClientError s"

fun run_calls ::
  "(storage_call list \<Rightarrow> bool) \<Rightarrow> (callback \<Rightarrow> store \<Rightarrow> unit result) \<Rightarrow>
     call list \<Rightarrow> store \<Rightarrow> unit result" where
  "run_calls full run [] s = Return () s"
| "run_calls full run (c # cs) s =
     (case run_call full run c s of
        Throw e s' \<Rightarrow> Throw e s'
      | Return u s' \<Rightarrow> run_calls full run cs s')"

primrec invoke :: "(storage_call list \<Rightarrow> bool) \<Rightarrow> nat \<Rightarrow> callback \<Rightarrow> store \<Rightarrow> unit result" where
  "invoke full 0 fn s = Throw RangeError s"
| "invoke full (Suc n) fn s =
     (case fn of
        Callback i body \<Rightarrow>
          run_calls full (invoke full n) body (s\<lparr> trace := trace s @ [Invoked i] \<rparr>))"

section \<open>Vocabulary of the statements\<close>

text \<open>The value a call returned, if it returned.\<close>

fun returned :: "'a result \<Rightarrow> 'a option" where
  "returned (Return a s) = Some a"
| "returned (Throw e s) = None"


text \<open>The callbacks waiting under a cookie type (none when \<^verbatim>\<open>listeners\<close> has no such own property).\<close>

definition pending :: "store \<Rightarrow> string \<Rightarrow> callback list" where
  "pending s t = (case map_of (listeners s) t of Some fns \<Rightarrow> fns | None \<Rightarrow> [])"

text \<open>A callback that does not call the module.\<close>

definition quiet :: "nat \<Rightarrow> callback" where
  "quiet i = Callback i []"

text \<open>
  Callbacks that only observe one cookie type \<open>t\<close>: the body calls \<^verbatim>\<open>hasConsent(t)\<close> and
  \<^verbatim>\<open>waitForConsent(fn, t)\<close> with \<open>fn\<close> again such a callback. \<open>seen t fn\<close> is the trace
  such a callback leaves when every \<^verbatim>\<open>hasConsent(t)\<close> answers \<^verbatim>\<open>true\<close> and every nested
  callback runs at once; \<open>depth fn\<close> is the number of nested callback frames it needs.
\<close>

fun watches :: "string \<Rightarrow> callback \<Rightarrow> bool"
  and watches_call :: "string \<Rightarrow> call \<Rightarrow> bool"
  and watches_calls :: "string \<Rightarrow> call list \<Rightarrow> bool" where
  "watches t (Callback i body) = watches_calls t body"
| "watches_call t (CallHasConsent arg) = (orDefault arg = t)"
| "watches_call t (CallWaitForConsent fn arg) = (orDefault arg = t \<and> watches t fn)"
| "watches_call t (CallGrantConsent arg) = False"
| "watches_call t (CallRevokeConsent arg) = False"
| "watches_call t (CallOfferedConsent arg) = False"
| "watches_call t Raise = False"
| "watches_calls t [] = True"
| "watches_calls t (c # cs) = (watches_call t c \<and> watches_calls t cs)"

fun seen :: "string \<Rightarrow> callback \<Rightarrow> event list"
  and seen_call :: "string \<Rightarrow> call \<Rightarrow> event list"
  and seen_calls :: "string \<Rightarrow> call list \<Rightarrow> event list" where
  "seen t (Callback i body) = Invoked i # seen_calls t body"
| "seen_call t (CallHasConsent arg) = [SawHasConsent t True]"
| "seen_call t (CallWaitForConsent fn arg) = seen t fn"
| "seen_call t (CallGrantConsent arg) = []"
| "seen_call t (CallRevokeConsent arg) = []"
| "seen_call t (CallOfferedConsent arg) = []"
| "seen_call t Raise = []"
| "seen_calls t [] = []"
| "seen_calls t (c # cs) = seen_call t c @ seen_calls t cs"

fun depth :: "callback \<Rightarrow> nat"
  and depth_call :: "call \<Rightarrow> nat"
  and depth_calls :: "call list \<Rightarrow> nat" where
  "depth (Callback i body) = Suc (depth_calls body)"
| "depth_call (CallWaitForConsent fn arg) = depth fn"
| "depth_call (CallHasConsent arg) = 0"
| "depth_call (CallGrantConsent arg) = 0"
| "depth_call (CallRevokeConsent arg) = 0"
| "depth_call (CallOfferedConsent arg) = 0"
| "depth_call Raise = 0"
| "depth_calls [] = 0"
| "depth_calls (c # cs) = max (depth_call c) (depth_calls cs)"


fun fired :: "event list \<Rightarrow> nat list" where
  "fired [] = []"
| "fired (Fired i # es) = i # fired es"
| "fired (e # es) = fired es"




text \<open>
  A store whose \<^verbatim>\<open>consent\<close> is a plain object and whose \<^verbatim>\<open>listeners\<close> has no own property
  named like a property of \<^verbatim>\<open>Object.prototype\<close>.
\<close>

definition plain :: "store \<Rightarrow> bool" where
  "plain s \<longleftrightarrow>
     (case consent s of JObject ps \<Rightarrow> True | _ \<Rightarrow> False) \<and>
     list_all (\<lambda>k. map_of (listeners s) k = None) object_prototype"

section \<open>Properties\<close>

lemma typeof_object_iff:
  "typeof v = ''object'' \<longleftrightarrow>
     v = JNull \<or> (\<exists>xs. v = JArray xs) \<or> (\<exists>ps. v = JObject ps) \<or> v = JBuiltin ''__proto__''"
  by (cases v) auto

subsection \<open>The exported functions on a plain object\<close>

lemma hasConsent_obj:
  "consent s = JObject ps \<Longrightarrow>
   hasConsent arg s =
     (if map_of ps (orDefault arg) = Some (JNum 1) then Return True s
      else if map_of ps (orDefault arg) = Some (JNum 0) then Return False s
      else Return False (s\<lparr>consent := JObject (AList.delete (orDefault arg) ps)\<rparr>))"
  by (auto simp: hasConsent_def Let_def split: option.splits)

lemma offeredConsent_obj:
  "consent s = JObject ps \<Longrightarrow>
   offeredConsent arg s =
     (if map_of ps (orDefault arg) = Some (JNum 1) \<or> map_of ps (orDefault arg) = Some (JNum 0)
      then Return True s
      else Return False (s\<lparr>consent := JObject (AList.delete (orDefault arg) ps)\<rparr>))"
  by (auto simp: offeredConsent_def Let_def split: option.splits)

lemma alterConsent_obj:
  "consent s = JObject ps \<Longrightarrow>
   alterConsent full v arg s =
     (let c = (if map_of ps (orDefault arg) = None \<and> orDefault arg = ''__proto__'' then JObject ps
               else JObject (AList.update (orDefault arg) v ps));
          calls = storageCalls s @ [SetItem nameString c]
      in if localStorageAvailable s
         then (if full calls then Throw QuotaExceededError else Return ())
                (s\<lparr>consent := c, storageCalls := calls\<rparr>)
         else Return () (s\<lparr>consent := c\<rparr>))"
  by (simp add: alterConsent_def Let_def)


text \<open>
  Claim C4: for every cookie type, \<^verbatim>\<open>hasConsent\<close> returns \<^verbatim>\<open>true\<close> exactly when the value
  stored for it in the consent map is the number \<^verbatim>\<open>1\<close> (granted); when the key is absent,
  or holds anything other than \<^verbatim>\<open>1\<close> or \<^verbatim>\<open>0\<close>, it returns \<^verbatim>\<open>false\<close>. The consent map is
  any plain object \<open>ps\<close>, the rest of the store is arbitrary, and the cookie type may be
  omitted.
\<close>

theorem hasConsent_true_iff_granted:
  "returned (hasConsent arg (s\<lparr>consent := JObject ps\<rparr>)) =
     Some (map_of ps (orDefault arg) = Some (JNum 1))
   \<and> (map_of ps (orDefault arg) = None \<or>
        (map_of ps (orDefault arg) \<noteq> Some (JNum 1) \<and> map_of ps (orDefault arg) \<noteq> Some (JNum 0))
      \<longrightarrow> returned (hasConsent arg (s\<lparr>consent := JObject ps\<rparr>)) = Some False)"
  by (auto simp: hasConsent_obj)

theorem hasConsent_true_iff_granted_witness:
  "returned (hasConsent (Some ''ads'')
      (init (\<lambda>str. None) False None\<lparr>consent := JObject [(''ads'', JNum 1), (''stats'', JStr ''yes'')]\<rparr>))
     = Some True
   \<and> returned (hasConsent (Some ''stats'')
      (init (\<lambda>str. None) False None\<lparr>consent := JObject [(''ads'', JNum 1), (''stats'', JStr ''yes'')]\<rparr>))
     = Some False
   \<and> returned (hasConsent None
      (init (\<lambda>str. None) False None\<lparr>consent := JObject [(''ads'', JNum 1), (''stats'', JStr ''yes'')]\<rparr>))
     = Some False"
  using hasConsent_true_iff_granted
          [where arg = "Some ''ads''" and s = "init (\<lambda>str. None) False None" and ps = "[(''ads'', JNum 1), (''stats'', JStr ''yes'')]"]
        hasConsent_true_iff_granted
          [where arg = "Some ''stats''" and s = "init (\<lambda>str. None) False None" and ps = "[(''ads'', JNum 1), (''stats'', JStr ''yes'')]"]
        hasConsent_true_iff_granted
          [where arg = None and s = "init (\<lambda>str. None) False None" and ps = "[(''ads'', JNum 1), (''stats'', JStr ''yes'')]"]
  by (simp add: defaultCookieType_def)

text \<open>
  Claim C5: for every cookie type, \<^verbatim>\<open>offeredConsent\<close> returns \<^verbatim>\<open>true\<close> exactly when the value
  stored for it is \<^verbatim>\<open>1\<close> (granted) or \<^verbatim>\<open>0\<close> (revoked), and \<^verbatim>\<open>false\<close> when the key is absent
  or holds any other value.
\<close>

theorem offeredConsent_true_iff_answered:
  "returned (offeredConsent arg (s\<lparr>consent := JObject ps\<rparr>)) =
     Some (map_of ps (orDefault arg) = Some (JNum 1) \<or> map_of ps (orDefault arg) = Some (JNum 0))
   \<and> (map_of ps (orDefault arg) = None \<or>
        (map_of ps (orDefault arg) \<noteq> Some (JNum 1) \<and> map_of ps (orDefault arg) \<noteq> Some (JNum 0))
      \<longrightarrow> returned (offeredConsent arg (s\<lparr>consent := JObject ps\<rparr>)) = Some False)"
  by (auto simp: offeredConsent_obj)

theorem offeredConsent_true_iff_answered_witness:
  "returned (offeredConsent (Some ''ads'')
      (init (\<lambda>str. None) False None\<lparr>consent := JObject [(''ads'', JNum 0), (''stats'', JNull)]\<rparr>))
     = Some True
   \<and> returned (offeredConsent (Some ''stats'')
      (init (\<lambda>str. None) False None\<lparr>consent := JObject [(''ads'', JNum 0), (''stats'', JNull)]\<rparr>))
     = Some False
   \<and> returned (offeredConsent (Some ''x'')
      (init (\<lambda>str. None) False None\<lparr>consent := JObject [(''ads'', JNum 0), (''stats'', JNull)]\<rparr>))
     = Some False"
  using offeredConsent_true_iff_answered
          [where arg = "Some ''ads''" and s = "init (\<lambda>str. None) False None" and ps = "[(''ads'', JNum 0), (''stats'', JNull)]"]
        offeredConsent_true_iff_answered
          [where arg = "Some ''stats''" and s = "init (\<lambda>str. None) False None" and ps = "[(''ads'', JNum 0), (''stats'', JNull)]"]
        offeredConsent_true_iff_answered
          [where arg = "Some ''x''" and s = "init (\<lambda>str. None) False None" and ps = "[(''ads'', JNum 0), (''stats'', JNull)]"]
  by simp

text \<open>
  Claim C8: when the value stored for a cookie type is neither \<^verbatim>\<open>1\<close> nor \<^verbatim>\<open>0\<close>, a call of
  \<^verbatim>\<open>hasConsent\<close> or of \<^verbatim>\<open>offeredConsent\<close> for it returns \<^verbatim>\<open>false\<close> and leaves the store as
  it was except that the consent map has lost that key: every other key keeps its
  value, and the list of calls made on \<^verbatim>\<open>localStorage\<close>, the listeners and the trace are
  untouched.
\<close>

theorem reads_drop_corrupt_entry:
  assumes "map_of ps (orDefault arg) \<noteq> Some (JNum 1)"
    and "map_of ps (orDefault arg) \<noteq> Some (JNum 0)"
  shows "hasConsent arg (s\<lparr>consent := JObject ps\<rparr>) =
           Return False (s\<lparr>consent := JObject (AList.delete (orDefault arg) ps)\<rparr>)
       \<and> offeredConsent arg (s\<lparr>consent := JObject ps\<rparr>) =
           Return False (s\<lparr>consent := JObject (AList.delete (orDefault arg) ps)\<rparr>)
       \<and> map_of (AList.delete (orDefault arg) ps) (orDefault arg) = None
       \<and> (\<forall>k. k \<noteq> orDefault arg \<longrightarrow> map_of (AList.delete (orDefault arg) ps) k = map_of ps k)
       \<and> storageCalls (store_of (hasConsent arg (s\<lparr>consent := JObject ps\<rparr>))) = storageCalls s
       \<and> storageCalls (store_of (offeredConsent arg (s\<lparr>consent := JObject ps\<rparr>))) = storageCalls s"
  using assms by (simp add: hasConsent_obj offeredConsent_obj AList.delete_conv')

theorem reads_drop_corrupt_entry_witness:
  "map_of [(''ads'', JNum 1), (''stats'', JStr ''yes'')] ''stats'' \<noteq> Some (JNum 1)
   \<and> map_of [(''ads'', JNum 1), (''stats'', JStr ''yes'')] ''stats'' \<noteq> Some (JNum 0)
   \<and> hasConsent (Some ''stats'')
        (init (\<lambda>str. None) True None\<lparr>consent := JObject [(''ads'', JNum 1), (''stats'', JStr ''yes'')]\<rparr>)
      = Return False (init (\<lambda>str. None) True None\<lparr>consent := JObject [(''ads'', JNum 1)]\<rparr>)
   \<and> offeredConsent (Some ''stats'')
        (init (\<lambda>str. None) True None\<lparr>consent := JObject [(''ads'', JNum 1), (''stats'', JStr ''yes'')]\<rparr>)
      = Return False (init (\<lambda>str. None) True None\<lparr>consent := JObject [(''ads'', JNum 1)]\<rparr>)"
  using reads_drop_corrupt_entry
          [where ps = "[(''ads'', JNum 1), (''stats'', JStr ''yes'')]" and arg = "Some ''stats''"
             and s = "init (\<lambda>str. None) True None"]
  by (simp add: AList.delete_eq)

subsection \<open>Initialisation from the stored string\<close>

lemma init_resets_blob:
  assumes "storedString = None \<or> storedString = Some [] \<or>
           (\<exists>str. storedString = Some str \<and>
              (JSON_parse str = None \<or> (\<exists>v. JSON_parse str = Some v \<and> typeof v \<noteq> ''object'')))"
  shows "init JSON_parse True storedString =
           \<lparr> localStorageAvailable = True, consent = JObject [], listeners = [],
             storageCalls = [RemoveItem nameString], trace = [] \<rparr>"
  using assms by (auto simp: init_def consent_init_def reset_def)

lemma init_adopts_object:
  assumes "JSON_parse str = Some v" and "str \<noteq> []" and "typeof v = ''object''"
  shows "init JSON_parse True (Some str) =
           \<lparr> localStorageAvailable = True, consent = v, listeners = [],
             storageCalls = [], trace = [] \<rparr>"
  using assms by (simp add: init_def consent_init_def)

lemma init_unavailable:
  "init JSON_parse False storedString =
     \<lparr> localStorageAvailable = False, consent = JObject [], listeners = [],
       storageCalls = [], trace = [] \<rparr>"
  by (simp add: init_def consent_init_def)

text \<open>
  Claim C1 says that a stored string which does not decode to a structured mapping is
  removed from \<^verbatim>\<open>localStorage\<close> and that the consent map then starts empty. Evaluated at
  the stored string \<^verbatim>\<open>null\<close>, which every JSON parser decodes to the value \<^verbatim>\<open>null\<close>: the
  test \<^verbatim>\<open>typeof parsed === 'object'\<close> lets \<^verbatim>\<open>null\<close> through, so \<^verbatim>\<open>consent\<close> is \<^verbatim>\<open>null\<close> and
  nothing is removed.
\<close>

theorem init_adopts_null_blob:
  "init (JSON_parse(''null'' := Some JNull)) True (Some ''null'') =
     \<lparr> localStorageAvailable = True, consent = JNull, listeners = [],
       storageCalls = [], trace = [] \<rparr>"
  by (simp add: init_def consent_init_def)

subsection \<open>Names inherited from the prototype\<close>

lemma revokeConsent_records:
  assumes "consent s = JObject ps"
    and "orDefault arg \<noteq> ''__proto__'' \<or> map_of ps (orDefault arg) \<noteq> None"
  shows "store_of (revokeConsent full arg s) =
           s\<lparr>consent := JObject (AList.update (orDefault arg) (JNum 0) ps),
             storageCalls :=
               (if localStorageAvailable s
                then storageCalls s @
                       [SetItem nameString (JObject (AList.update (orDefault arg) (JNum 0) ps))]
                else storageCalls s)\<rparr>"
    and "returns (revokeConsent full arg s) \<longleftrightarrow>
           \<not> (localStorageAvailable s \<and>
                full (storageCalls s @
                        [SetItem nameString (JObject (AList.update (orDefault arg) (JNum 0) ps))]))"
    and "map_of (AList.update (orDefault arg) (JNum 0) ps) (orDefault arg) = Some (JNum 0)"
    and "listeners (store_of (revokeConsent full arg s)) = listeners s"
    and "trace (store_of (revokeConsent full arg s)) = trace s"
  using assms by (auto simp: revokeConsent_def alterConsent_def Let_def AList.update_conv')

lemma waitForConsent_granted:
  assumes "consent s = JObject ps" and "map_of ps (orDefault arg) = Some (JNum 1)"
  shows "waitForConsent run fn arg s = run fn s"
  using assms by (simp add: waitForConsent_def Let_def hasConsent_def)


lemma waitForConsent_not_granted:
  assumes "consent s = JObject ps" and "map_of ps (orDefault arg) \<noteq> Some (JNum 1)"
  shows "\<exists>ps'. map_of ps' (orDefault arg) \<noteq> Some (JNum 1) \<and>
     waitForConsent run fn arg s =
       (if map_of (listeners s) (orDefault arg) = None \<and> orDefault arg \<in> set object_prototype
        then Throw TypeError (s\<lparr>consent := JObject ps'\<rparr>)
        else Return ()
               (s\<lparr>consent := JObject ps',
                  listeners := AList.update (orDefault arg) (pending s (orDefault arg) @ [fn]) (listeners s)\<rparr>))"
proof (cases "map_of ps (orDefault arg) = Some (JNum 0)")
  case True
  with assms show ?thesis
    by (intro exI[of _ ps])
       (auto simp: waitForConsent_def Let_def hasConsent_def listeners_get_def pending_def
             split: option.splits)
next
  case False
  with assms show ?thesis
    by (intro exI[of _ "AList.delete (orDefault arg) ps"])
       (auto simp: waitForConsent_def Let_def hasConsent_def listeners_get_def pending_def
             AList.delete_conv' split: option.splits)
qed

text \<open>
  Claim C6 says that \<^verbatim>\<open>waitForConsent(callback, cookieType)\<close> appends the callback to the
  pending list of the cookie type whenever consent is not granted. Evaluated at the
  cookie type \<^verbatim>\<open>constructor\<close> on a store that has just been initialised:
  \<^verbatim>\<open>listeners['constructor']\<close> is the function inherited from \<^verbatim>\<open>Object.prototype\<close>, which
  is truthy and has no \<^verbatim>\<open>push\<close>, so the call throws a \<^verbatim>\<open>TypeError\<close> and nothing is queued.
\<close>

theorem waitForConsent_inherited_name_throws:
  "waitForConsent run fn (Some ''constructor'') (init JSON_parse False storedString) =
     Throw TypeError (init JSON_parse False storedString)
   \<and> pending (init JSON_parse False storedString) ''constructor'' = []"
  by (simp add: init_unavailable waitForConsent_def hasConsent_def Let_def listeners_get_def
        object_prototype_def pending_def)

text \<open>
  Claim C7 says that \<^verbatim>\<open>revokeConsent(cookieType)\<close> sets the entry of the cookie type to
  \<^verbatim>\<open>0\<close> (revoked). Evaluated at the cookie type \<^verbatim>\<open>__proto__\<close> on a store that has just been
  initialised with \<^verbatim>\<open>localStorage\<close> empty: the assignment \<^verbatim>\<open>consent['__proto__'] = 0\<close> goes to
  the setter inherited from \<^verbatim>\<open>Object.prototype\<close>, which ignores a number, so the consent
  map stays empty, the empty map is what is written, and \<^verbatim>\<open>offeredConsent\<close> still
  answers \<^verbatim>\<open>false\<close>. This is so whether the host accepts the write (the call returns) or
  refuses it (the call throws): the store left behind is the same. (The other half of the
  claim, that revoking runs and removes no listener, holds for every cookie type:
  \<open>alterConsent_frame\<close>.)
\<close>

theorem revokeConsent_proto_not_recorded:
  "revokeConsent full (Some ''__proto__'') (init JSON_parse True None) =
     (if full [RemoveItem nameString, SetItem nameString (JObject [])]
      then Throw QuotaExceededError else Return ())
       \<lparr> localStorageAvailable = True, consent = JObject [], listeners = [],
         storageCalls = [RemoveItem nameString, SetItem nameString (JObject [])], trace = [] \<rparr>
   \<and> returned (offeredConsent (Some ''__proto__'')
        (store_of (revokeConsent full (Some ''__proto__'') (init JSON_parse True None)))) = Some False"
  by (simp add: init_def consent_init_def reset_def revokeConsent_def alterConsent_def
        offeredConsent_def Let_def object_prototype_def)

text \<open>
  Claim C3 says that none of the five exported functions raises an error, for every
  cookie type and every store, whatever string was persisted. Evaluated at two inputs.
  After the stored string \<^verbatim>\<open>null\<close> was adopted, \<^verbatim>\<open>consent\<close> is \<^verbatim>\<open>null\<close> and each of the five
  functions throws a \<^verbatim>\<open>TypeError\<close>, for every cookie type. On a freshly initialised
  store, \<^verbatim>\<open>grantConsent('toString')\<close> records the consent and then throws a \<^verbatim>\<open>TypeError\<close>:
  \<^verbatim>\<open>listeners['toString']\<close> is the inherited function, which has no \<^verbatim>\<open>forEach\<close>. Both hold
  whatever the host does with writes, since no write is reached.
\<close>

theorem exports_throw_TypeError:
  "(let s0 = init (JSON_parse(''null'' := Some JNull)) True (Some ''null'')
    in hasConsent arg s0 = Throw TypeError s0
     \<and> offeredConsent arg s0 = Throw TypeError s0
     \<and> revokeConsent full arg s0 = Throw TypeError s0
     \<and> grantConsent full run arg s0 = Throw TypeError s0
     \<and> waitForConsent run fn arg s0 = Throw TypeError s0)
   \<and> grantConsent full run (Some ''toString'') (init JSON_parse False storedString) =
       Throw TypeError
         \<lparr> localStorageAvailable = False, consent = JObject [(''toString'', JNum 1)],
           listeners = [], storageCalls = [], trace = [] \<rparr>"
  by (simp add: init_def consent_init_def hasConsent_def offeredConsent_def revokeConsent_def
        grantConsent_def waitForConsent_def alterConsent_def Let_def listeners_get_def
        object_prototype_def)

subsection \<open>Invariants of every run\<close>

text \<open>
  A property of stores that is kept by \<^verbatim>\<open>alterConsent\<close>, by the two reads, by adding to and
  removing a pending list and by recording in the trace what a callback does is kept by
  every program of calls of the exported functions, whatever the callbacks, the host's
  answers to writes and the room on the call stack, and whether the program returns or
  throws.
\<close>

lemma forEach_preserves:
  assumes run: "\<And>fn s. P s \<Longrightarrow> P (store_of (run fn s))"
  shows "P s \<Longrightarrow> P (store_of (forEach run fns s))"
proof (induction fns arbitrary: s)
  case Nil
  then show ?case by simp
next
  case (Cons fn fns)
  from run[OF Cons.prems, of fn] Cons.IH show ?case
    by (cases "run fn s") simp_all
qed

lemma grantConsent_preserves:
  assumes alter: "\<And>s v arg. P s \<Longrightarrow> P (store_of (alterConsent full v arg s))"
    and drop: "\<And>s t. P s \<Longrightarrow> P (s\<lparr>listeners := AList.delete t (listeners s)\<rparr>)"
    and run: "\<And>fn s. P s \<Longrightarrow> P (store_of (run fn s))"
    and P: "P s"
  shows "P (store_of (grantConsent full run arg s))"
proof (cases "alterConsent full (JNum 1) (Some (orDefault arg)) s")
  case (Throw e s')
  with alter[OF P, of "JNum 1" "Some (orDefault arg)"] show ?thesis
    by (simp add: grantConsent_def Let_def)
next
  case (Return u s1)
  with alter[OF P, of "JNum 1" "Some (orDefault arg)"] have P1: "P s1" by simp
  show ?thesis
  proof (cases "listeners_get (listeners s1) (orDefault arg)")
    case (Pending fns)
    have F: "P (store_of (forEach run fns s1))"
      by (rule forEach_preserves[of P run, OF run P1])
    show ?thesis
    proof (cases "forEach run fns s1")
      case inner: (Return u' s2)
      with F drop[of s2 "orDefault arg"] Return Pending show ?thesis
        by (simp add: grantConsent_def Let_def)
    next
      case inner: (Throw e s2)
      with F Return Pending show ?thesis
        by (simp add: grantConsent_def Let_def)
    qed
  next
    case (Inherited k)
    with Return P1 show ?thesis by (simp add: grantConsent_def Let_def)
  next
    case Vacant
    with Return P1 show ?thesis by (simp add: grantConsent_def Let_def)
  qed
qed

lemma listeners_get_cases:
  "listeners_get ls t = Pending fns \<Longrightarrow> map_of ls t \<noteq> None"
  "listeners_get ls t = Vacant \<Longrightarrow> t \<notin> set object_prototype"
  by (auto simp: listeners_get_def split: option.splits if_splits)

lemma waitForConsent_preserves:
  assumes has: "\<And>s arg. P s \<Longrightarrow> P (store_of (hasConsent arg s))"
    and push: "\<And>s t fns. P s \<Longrightarrow> map_of (listeners s) t \<noteq> None \<or> t \<notin> set object_prototype \<Longrightarrow>
                 P (s\<lparr>listeners := AList.update t fns (listeners s)\<rparr>)"
    and run: "\<And>fn s. P s \<Longrightarrow> P (store_of (run fn s))"
    and P: "P s"
  shows "P (store_of (waitForConsent run fn arg s))"
proof (cases "hasConsent (Some (orDefault arg)) s")
  case (Throw e s')
  with has[OF P, of "Some (orDefault arg)"] show ?thesis
    by (simp add: waitForConsent_def Let_def)
next
  case (Return granted s1)
  with has[OF P, of "Some (orDefault arg)"] have P1: "P s1" by simp
  show ?thesis
  proof (cases granted)
    case True
    with Return run[OF P1, of fn] show ?thesis by (simp add: waitForConsent_def Let_def)
  next
    case False
    show ?thesis
    proof (cases "listeners_get (listeners s1) (orDefault arg)")
      case (Pending fns)
      with Return False push[OF P1, of "orDefault arg" "fns @ [fn]"] listeners_get_cases(1)[OF Pending]
      show ?thesis by (simp add: waitForConsent_def Let_def)
    next
      case (Inherited k)
      with Return False P1 show ?thesis by (simp add: waitForConsent_def Let_def)
    next
      case Vacant
      with Return False push[OF P1, of "orDefault arg" "[fn]"] listeners_get_cases(2)[OF Vacant]
      show ?thesis by (simp add: waitForConsent_def Let_def)
    qed
  qed
qed

lemma run_call_preserves:
  assumes alter: "\<And>s v arg. P s \<Longrightarrow> P (store_of (alterConsent full v arg s))"
    and has: "\<And>s arg. P s \<Longrightarrow> P (store_of (hasConsent arg s))"
    and offered: "\<And>s arg. P s \<Longrightarrow> P (store_of (offeredConsent arg s))"
    and push: "\<And>s t fns. P s \<Longrightarrow> map_of (listeners s) t \<noteq> None \<or> t \<notin> set object_prototype \<Longrightarrow>
                 P (s\<lparr>listeners := AList.update t fns (listeners s)\<rparr>)"
    and drop: "\<And>s t. P s \<Longrightarrow> P (s\<lparr>listeners := AList.delete t (listeners s)\<rparr>)"
    and logged: "\<And>s e. P s \<Longrightarrow> fired [e] = [] \<Longrightarrow> P (s\<lparr>trace := trace s @ [e]\<rparr>)"
    and run: "\<And>fn s. P s \<Longrightarrow> P (store_of (run fn s))"
    and P: "P s"
  shows "P (store_of (run_call full run c s))"
proof (cases c)
  case (CallGrantConsent arg)
  then show ?thesis
    using grantConsent_preserves[of P full run s arg, OF alter drop run P] by simp
next
  case (CallRevokeConsent arg)
  have "P (s\<lparr>trace := trace s @ [Revoking (orDefault arg)]\<rparr>)"
    by (rule logged[OF P]) simp
  from alter[OF this, of "JNum 0" arg] CallRevokeConsent show ?thesis
    by (simp add: revokeConsent_def)
next
  case (CallHasConsent arg)
  then show ?thesis using has[OF P, of arg] logged
    by (cases "hasConsent arg s") simp_all
next
  case (CallOfferedConsent arg)
  then show ?thesis using offered[OF P, of arg] logged
    by (cases "offeredConsent arg s") simp_all
next
  case (CallWaitForConsent fn arg)
  then show ?thesis
    using waitForConsent_preserves[of P run s fn arg, OF has push run P] by simp
next
  case Raise
  then show ?thesis using P by simp
qed

lemma run_calls_preserves:
  assumes step: "\<And>c s. P s \<Longrightarrow> P (store_of (run_call full run c s))"
  shows "P s \<Longrightarrow> P (store_of (run_calls full run cs s))"
proof (induction cs arbitrary: s)
  case Nil
  then show ?case by simp
next
  case (Cons c cs)
  from step[OF Cons.prems, of c] Cons.IH show ?case
    by (cases "run_call full run c s") simp_all
qed

lemma invoke_preserves:
  assumes alter: "\<And>s v arg. P s \<Longrightarrow> P (store_of (alterConsent full v arg s))"
    and has: "\<And>s arg. P s \<Longrightarrow> P (store_of (hasConsent arg s))"
    and offered: "\<And>s arg. P s \<Longrightarrow> P (store_of (offeredConsent arg s))"
    and push: "\<And>s t fns. P s \<Longrightarrow> map_of (listeners s) t \<noteq> None \<or> t \<notin> set object_prototype \<Longrightarrow>
                 P (s\<lparr>listeners := AList.update t fns (listeners s)\<rparr>)"
    and drop: "\<And>s t. P s \<Longrightarrow> P (s\<lparr>listeners := AList.delete t (listeners s)\<rparr>)"
    and logged: "\<And>s e. P s \<Longrightarrow> fired [e] = [] \<Longrightarrow> P (s\<lparr>trace := trace s @ [e]\<rparr>)"
  shows "P s \<Longrightarrow> P (store_of (invoke full n fn s))"
proof (induction n arbitrary: s fn)
  case 0
  then show ?case by simp
next
  case (Suc n)
  obtain i body where fn: "fn = Callback i body" by (cases fn)
  have step: "P s \<Longrightarrow> P (store_of (run_call full (invoke full n) c s))" for c s
    by (rule run_call_preserves[of P full "invoke full n", OF alter has offered push drop logged Suc.IH])
  have "P (s\<lparr>trace := trace s @ [Invoked i]\<rparr>)" by (rule logged[OF Suc.prems]) simp
  from run_calls_preserves[of P full "invoke full n", OF step this] fn show ?case by simp
qed

lemma program_preserves:
  assumes alter: "\<And>s v arg. P s \<Longrightarrow> P (store_of (alterConsent full v arg s))"
    and has: "\<And>s arg. P s \<Longrightarrow> P (store_of (hasConsent arg s))"
    and offered: "\<And>s arg. P s \<Longrightarrow> P (store_of (offeredConsent arg s))"
    and push: "\<And>s t fns. P s \<Longrightarrow> map_of (listeners s) t \<noteq> None \<or> t \<notin> set object_prototype \<Longrightarrow>
                 P (s\<lparr>listeners := AList.update t fns (listeners s)\<rparr>)"
    and drop: "\<And>s t. P s \<Longrightarrow> P (s\<lparr>listeners := AList.delete t (listeners s)\<rparr>)"
    and logged: "\<And>s e. P s \<Longrightarrow> fired [e] = [] \<Longrightarrow> P (s\<lparr>trace := trace s @ [e]\<rparr>)"
    and P: "P s"
  shows "P (store_of (run_calls full (invoke full n) cs s))"
proof -
  have inv: "P s \<Longrightarrow> P (store_of (invoke full n fn s))" for fn s
    by (rule invoke_preserves[of P full, OF alter has offered push drop logged])
  have step: "P s \<Longrightarrow> P (store_of (run_call full (invoke full n) c s))" for c s
    by (rule run_call_preserves[of P full "invoke full n", OF alter has offered push drop logged inv])
  show ?thesis by (rule run_calls_preserves[of P full "invoke full n", OF step P])
qed


lemma offline_program:
  assumes "\<not> localStorageAvailable s"
  shows "\<not> localStorageAvailable (store_of (run_calls full (invoke full n) cs s)) \<and>
         storageCalls (store_of (run_calls full (invoke full n) cs s)) = storageCalls s"
proof -
  define P where "P = (\<lambda>s'::store. \<not> localStorageAvailable s' \<and> storageCalls s' = storageCalls s)"
  have "P (store_of (run_calls full (invoke full n) cs s))"
  proof (rule program_preserves[of P])
    show "P s" using assms by (simp add: P_def)
  qed (auto simp: P_def alterConsent_def hasConsent_def offeredConsent_def Let_def split: sum.splits)
  then show ?thesis by (simp add: P_def)
qed


lemma plain_program:
  assumes "plain s"
  shows "plain (store_of (run_calls full (invoke full n) cs s))"
proof (rule program_preserves[of plain])
  show "plain s" by fact
next
  fix s t fns
  assume "plain s" and "map_of (listeners s) t \<noteq> None \<or> t \<notin> set object_prototype"
  then show "plain (s\<lparr>listeners := AList.update t fns (listeners s)\<rparr>)"
    by (auto simp: plain_def list_all_iff AList.update_conv')
qed (auto simp: plain_def list_all_iff alterConsent_def hasConsent_def offeredConsent_def Let_def
       AList.delete_conv' split: sum.splits jsval.splits)

lemma plain_slot_not_inherited:
  assumes "plain s" and "map_of (listeners s) t = Some fns"
  shows "t \<notin> set object_prototype" and "t \<noteq> ''__proto__''"
proof -
  show "t \<notin> set object_prototype"
    using assms by (auto simp: plain_def list_all_iff)
  then show "t \<noteq> ''__proto__''"
    by (auto simp: object_prototype_def)
qed

lemma init_plain:
  "plain (init JSON_parse False storedString)"
  "JSON_parse str = Some (JObject ps) \<Longrightarrow> plain (init JSON_parse True (Some str))"
  "storedString = None \<or> storedString = Some [] \<or>
     (\<exists>str. storedString = Some str \<and>
        (JSON_parse str = None \<or> (\<exists>v. JSON_parse str = Some v \<and> typeof v \<noteq> ''object''))) \<Longrightarrow>
   plain (init JSON_parse True storedString)"
  by (auto simp: plain_def init_def consent_init_def reset_def list_all_iff)

subsection \<open>Registering callbacks and granting\<close>


lemma forEach_quiet:
  "forEach (invoke full (Suc n)) (map quiet ids) s =
     Return () (s\<lparr>trace := trace s @ map Invoked ids\<rparr>)"
  by (induction ids arbitrary: s) (simp_all add: quiet_def)



lemma grantConsent_obj:
  assumes "consent s = JObject ps"
  shows "grantConsent full run arg s =
     (let t = orDefault arg;
          c = (if map_of ps t = None \<and> t = ''__proto__'' then JObject ps
               else JObject (AList.update t (JNum 1) ps));
          calls = storageCalls s @ [SetItem nameString c];
          s1 = (if localStorageAvailable s then s\<lparr>consent := c, storageCalls := calls\<rparr>
                else s\<lparr>consent := c\<rparr>)
      in if localStorageAvailable s \<and> full calls then Throw QuotaExceededError s1
         else case map_of (listeners s) t of
           None \<Rightarrow> if t \<in> set object_prototype then Throw TypeError s1 else Return () s1
         | Some fns \<Rightarrow>
             (case forEach run fns s1 of
                Throw e s' \<Rightarrow> Throw e s'
              | Return u s2 \<Rightarrow> Return () (s2\<lparr>listeners := AList.delete t (listeners s2)\<rparr>)))"
  using assms
  by (simp add: grantConsent_def alterConsent_def listeners_get_def Let_def split: option.splits)











subsection \<open>Callbacks that observe the cookie type being granted\<close>























subsection \<open>After a failed probe\<close>

lemma plain_exports_return:
  assumes "plain s"
  shows "returns (hasConsent arg s)"
    and "returns (offeredConsent arg s)"
    and "\<not> localStorageAvailable s \<or> (\<forall>calls. \<not> full calls) \<Longrightarrow> returns (revokeConsent full arg s)"
    and "orDefault arg \<notin> set object_prototype \<Longrightarrow>
           returns (waitForConsent (invoke full (Suc n)) (quiet i) arg s)"
    and "\<not> localStorageAvailable s \<or> (\<forall>calls. \<not> full calls) \<Longrightarrow>
         orDefault arg \<notin> set object_prototype \<Longrightarrow> pending s (orDefault arg) = map quiet ids \<Longrightarrow>
           returns (grantConsent full (invoke full (Suc n)) arg s)"
proof -
  from assms obtain ps where obj: "consent s = JObject ps"
    by (auto simp: plain_def split: jsval.splits)
  show "returns (hasConsent arg s)" by (simp add: hasConsent_obj[OF obj])
  show "returns (offeredConsent arg s)" by (simp add: offeredConsent_obj[OF obj])
  show "returns (revokeConsent full arg s)"
    if "\<not> localStorageAvailable s \<or> (\<forall>calls. \<not> full calls)"
    using that by (auto simp: revokeConsent_def alterConsent_obj[OF obj] Let_def)
  show "returns (waitForConsent (invoke full (Suc n)) (quiet i) arg s)"
    if "orDefault arg \<notin> set object_prototype"
  proof (cases "map_of ps (orDefault arg) = Some (JNum 1)")
    case True
    then show ?thesis by (simp add: waitForConsent_granted[OF obj] quiet_def)
  next
    case False
    from waitForConsent_not_granted[OF obj False, of "invoke full (Suc n)" "quiet i"] that
    show ?thesis by auto
  qed
  show "returns (grantConsent full (invoke full (Suc n)) arg s)"
    if "\<not> localStorageAvailable s \<or> (\<forall>calls. \<not> full calls)"
      and "orDefault arg \<notin> set object_prototype" and "pending s (orDefault arg) = map quiet ids"
    using that
    by (auto simp: grantConsent_obj[OF obj] Let_def pending_def forEach_quiet split: option.splits)
qed

lemma offline_records:
  assumes "consent s = JObject ps" and "\<not> localStorageAvailable s"
    and "orDefault arg \<noteq> ''__proto__''"
  shows "revokeConsent full arg s =
           Return () (s\<lparr>consent := JObject (AList.update (orDefault arg) (JNum 0) ps)\<rparr>)"
    and "returned (hasConsent arg (store_of (revokeConsent full arg s))) = Some False"
    and "returned (offeredConsent arg (store_of (revokeConsent full arg s))) = Some True"
    and "map_of (listeners s) (orDefault arg) = None \<Longrightarrow> orDefault arg \<notin> set object_prototype \<Longrightarrow>
           grantConsent full run arg s =
             Return () (s\<lparr>consent := JObject (AList.update (orDefault arg) (JNum 1) ps)\<rparr>)"
    and "returned (hasConsent arg (s\<lparr>consent := JObject (AList.update (orDefault arg) (JNum 1) ps)\<rparr>))
           = Some True"
    and "returned (offeredConsent arg (s\<lparr>consent := JObject (AList.update (orDefault arg) (JNum 1) ps)\<rparr>))
           = Some True"
proof -
  show r: "revokeConsent full arg s =
           Return () (s\<lparr>consent := JObject (AList.update (orDefault arg) (JNum 0) ps)\<rparr>)"
    using assms by (simp add: revokeConsent_def alterConsent_obj Let_def)
  show "returned (hasConsent arg (store_of (revokeConsent full arg s))) = Some False"
    by (simp add: r hasConsent_def Let_def AList.update_conv')
  show "returned (offeredConsent arg (store_of (revokeConsent full arg s))) = Some True"
    by (simp add: r offeredConsent_def Let_def AList.update_conv')
  show "grantConsent full run arg s =
             Return () (s\<lparr>consent := JObject (AList.update (orDefault arg) (JNum 1) ps)\<rparr>)"
    if "map_of (listeners s) (orDefault arg) = None" and "orDefault arg \<notin> set object_prototype"
    using that assms by (simp add: grantConsent_obj Let_def)
  show "returned (hasConsent arg (s\<lparr>consent := JObject (AList.update (orDefault arg) (JNum 1) ps)\<rparr>))
           = Some True"
    by (simp add: hasConsent_def Let_def AList.update_conv')
  show "returned (offeredConsent arg (s\<lparr>consent := JObject (AList.update (orDefault arg) (JNum 1) ps)\<rparr>))
           = Some True"
    by (simp add: offeredConsent_def Let_def AList.update_conv')
qed

text \<open>
  Claim C9 says that after a failed probe of \<^verbatim>\<open>localStorage\<close> the five exported functions
  behave correctly on the in-memory state and write nothing. Evaluated on the store of a
  start-up whose probe failed, whatever was stored and whatever the host would do with a
  write: \<^verbatim>\<open>waitForConsent(fn, 'valueOf')\<close> throws a \<^verbatim>\<open>TypeError\<close> and queues nothing,
  \<^verbatim>\<open>grantConsent('hasOwnProperty')\<close> records the consent and then throws a \<^verbatim>\<open>TypeError\<close>, and
  \<^verbatim>\<open>revokeConsent('__proto__')\<close> returns with nothing recorded, so that \<^verbatim>\<open>offeredConsent\<close>
  still answers \<^verbatim>\<open>false\<close>. (The other half of the claim holds: with the flag off no program
  of calls of the five functions makes a call on \<^verbatim>\<open>localStorage\<close>, \<open>offline_program\<close>; and
  for every cookie type that is not a property name of \<^verbatim>\<open>Object.prototype\<close> the functions
  return and record what they should, \<open>plain_exports_return\<close> and \<open>offline_records\<close>.)
\<close>

theorem probe_failure_inherited_names:
  "init JSON_parse False storedString =
     \<lparr> localStorageAvailable = False, consent = JObject [], listeners = [],
       storageCalls = [], trace = [] \<rparr>
   \<and> waitForConsent run fn (Some ''valueOf'') (init JSON_parse False storedString) =
       Throw TypeError (init JSON_parse False storedString)
   \<and> grantConsent full run (Some ''hasOwnProperty'') (init JSON_parse False storedString) =
       Throw TypeError
         \<lparr> localStorageAvailable = False, consent = JObject [(''hasOwnProperty'', JNum 1)],
           listeners = [], storageCalls = [], trace = [] \<rparr>
   \<and> revokeConsent full (Some ''__proto__'') (init JSON_parse False storedString) =
       Return () (init JSON_parse False storedString)
   \<and> returned (offeredConsent (Some ''__proto__'')
        (store_of (revokeConsent full (Some ''__proto__'') (init JSON_parse False storedString))))
       = Some False"
  by (simp add: init_def consent_init_def hasConsent_def offeredConsent_def revokeConsent_def
        grantConsent_def waitForConsent_def alterConsent_def Let_def listeners_get_def
        object_prototype_def)

end
